theory Spec2Isabelle
  imports Main
begin

section \<open>The offline asset cache (service worker)\<close>

subsection \<open>Data model\<close>

text \<open>
  A request is identified by its method and URL; a response carries a status and a body.
  A promise that rejects is a value \<open>Inl\<close> of a sum type, one that fulfils is \<open>Inr\<close>.
\<close>

datatype failure = NetworkError | BadResponse

record request =
  req_method :: string
  req_url :: string

record response =
  status :: nat
  body :: string

type_synonym cache = "request \<rightharpoonup> response"

datatype worker_state = Installing | Active | Redundant

text \<open>
  The world the worker runs in: the cache storage of the origin (named caches, in the order
  of their creation), the log of every request handed to the network, and the lifecycle
  state of the worker.
\<close>

record world =
  caches :: "(string \<times> cache) list"
  net_log :: "request list"
  worker :: worker_state

text \<open>
  Modelled from the spec: the hosting runtime's Network API and the policy of the Store API
  on responses. \<open>network\<close> is \<open>fetch(request) -> response\<close>, failing on a network error;
  \<open>accepts\<close> is the policy that says which fetched responses \<open>addAll\<close> counts as
  successful (the spec leaves non-2xx statuses to the policy).
\<close>

record runtime =
  network :: "request \<Rightarrow> failure + response"
  accepts :: "response \<Rightarrow> bool"

definition fresh_world :: world where
  "fresh_world = \<lparr>caches = [], net_log = [], worker = Installing\<rparr>"

subsection \<open>The constants of the worker script\<close>

definition cacheName :: string where
  "cacheName = ''pwa-cache-v1''"

definition assets :: "string list" where
  "assets = [''/'', ''/static/app.js'', ''/static/manifest.json'']"

text \<open>A path handed to \<open>addAll\<close> stands for the GET request of that path.\<close>

definition asset_request :: "string \<Rightarrow> request" where
  "asset_request p = \<lparr>req_method = ''GET'', req_url = p\<rparr>"

subsection \<open>The runtime's Store and Network API\<close>

text \<open>
  Modelled from the spec: \<open>open(name) -> Store\<close> of the hosting runtime; opening a store by
  name creates it (empty, last in creation order) if absent.
\<close>

definition caches_open :: "string \<Rightarrow> world \<Rightarrow> world" where
  "caches_open name w =
     (case map_of (caches w) name of
        Some c \<Rightarrow> w
      | None \<Rightarrow> w\<lparr>caches := caches w @ [(name, Map.empty)]\<rparr>)"

text \<open>
  Modelled from the spec: \<open>fetch(request)\<close> of the hosting runtime. Every call is recorded
  in the network log; its result is whatever the network produces.
\<close>

definition net_fetch :: "runtime \<Rightarrow> request \<Rightarrow> world \<Rightarrow> (failure + response) \<times> world" where
  "net_fetch rt q w = (network rt q, w\<lparr>net_log := net_log w @ [q]\<rparr>)"

text \<open>
  Modelled from the spec: the parts of \<open>Store.addAll\<close> of the hosting runtime. The fetch of
  one asset is the network's answer, filtered by the policy; \<open>collect\<close> waits for the
  fetches of the whole list and fails with the first failure among them; \<open>put_entries\<close>
  writes the fetched responses into a store, a later entry replacing an earlier one of the
  same request; \<open>put_in\<close> does so in the store of the given name.
\<close>

definition asset_fetch :: "runtime \<Rightarrow> request \<Rightarrow> failure + response" where
  "asset_fetch rt q =
     (case network rt q of
        Inl e \<Rightarrow> Inl e
      | Inr r \<Rightarrow> if accepts rt r then Inr r else Inl BadResponse)"

fun collect :: "(request \<times> (failure + response)) list \<Rightarrow> failure + (request \<times> response) list" where
  "collect [] = Inr []"
| "collect ((q, Inl e) # rest) = Inl e"
| "collect ((q, Inr r) # rest) =
     (case collect rest of Inl e \<Rightarrow> Inl e | Inr es \<Rightarrow> Inr ((q, r) # es))"

fun put_entries :: "(request \<times> response) list \<Rightarrow> cache \<Rightarrow> cache" where
  "put_entries [] c = c"
| "put_entries ((q, r) # es) c = put_entries es (c(q \<mapsto> r))"

fun put_in :: "string \<Rightarrow> (request \<times> response) list \<Rightarrow> (string \<times> cache) list \<Rightarrow> (string \<times> cache) list" where
  "put_in name es [] = []"
| "put_in name es ((n, c) # cs) =
     (if n = name then (n, put_entries es c) # cs else (n, c) # put_in name es cs)"

text \<open>
  Modelled from the spec: \<open>Store.addAll(list<path>) -> unit, fails if any fetch fails\<close> of
  the hosting runtime. A fetch is issued for every request of the list; when each of them
  succeeds the responses are stored, keyed by their requests, and when one fails the call
  as a whole fails and stores nothing.
\<close>

definition cache_addAll :: "runtime \<Rightarrow> string \<Rightarrow> request list \<Rightarrow> world \<Rightarrow> (failure + unit) \<times> world" where
  "cache_addAll rt name qs w =
     (let w1 = w\<lparr>net_log := net_log w @ qs\<rparr> in
      case collect (map (\<lambda>q. (q, asset_fetch rt q)) qs) of
        Inl e \<Rightarrow> (Inl e, w1)
      | Inr es \<Rightarrow> (Inr (), w1\<lparr>caches := put_in name es (caches w1)\<rparr>))"

text \<open>
  Modelled from the spec: \<open>Store.match(request) -> response|absent\<close> of the hosting runtime,
  on the store of a given name.
\<close>

definition cache_match :: "string \<Rightarrow> request \<Rightarrow> world \<Rightarrow> response option" where
  "cache_match name q w = (case map_of (caches w) name of None \<Rightarrow> None | Some c \<Rightarrow> c q)"

text \<open>
  Modelled from the spec: the \<open>match\<close> of the cache storage as a whole, which the fetch
  handler calls (\<open>caches.match\<close>): the stores are searched in the order of their creation
  and the first stored response for the request is the answer.
\<close>

fun caches_match :: "request \<Rightarrow> (string \<times> cache) list \<Rightarrow> response option" where
  "caches_match q [] = None"
| "caches_match q ((n, c) # cs) =
     (case c q of Some r \<Rightarrow> Some r | None \<Rightarrow> caches_match q cs)"

subsection \<open>The two event handlers\<close>

text \<open>
  The install handler: \<open>caches.open(cacheName).then(cache => cache.addAll(assets))\<close>. Its
  value is the promise handed to \<open>event.waitUntil\<close>.
\<close>

definition install_handler :: "runtime \<Rightarrow> world \<Rightarrow> (failure + unit) \<times> world" where
  "install_handler rt w =
     cache_addAll rt cacheName (map asset_request assets) (caches_open cacheName w)"

text \<open>
  Modelled from the spec: the hosting runtime's side of \<open>event.waitUntil\<close>. The worker becomes
  active when the promise of the install handler fulfils, and is discarded when it rejects.
\<close>

definition install_event :: "runtime \<Rightarrow> world \<Rightarrow> (failure + unit) \<times> world" where
  "install_event rt w =
     (case install_handler rt w of
        (Inl e, w') \<Rightarrow> (Inl e, w'\<lparr>worker := Redundant\<rparr>)
      | (Inr u, w') \<Rightarrow> (Inr u, w'\<lparr>worker := Active\<rparr>))"

text \<open>
  The fetch handler: \<open>caches.match(event.request).then(res => res || fetch(event.request))\<close>.
  A stored response is an object, hence truthy; \<open>undefined\<close> (no match) is falsy. Its value is
  the promise handed to \<open>event.respondWith\<close>.
\<close>

definition fetch_handler :: "runtime \<Rightarrow> request \<Rightarrow> world \<Rightarrow> (failure + response) \<times> world" where
  "fetch_handler rt q w =
     (case caches_match q (caches w) of
        Some res \<Rightarrow> (Inr res, w)
      | None \<Rightarrow> net_fetch rt q w)"

subsection \<open>Runs of the worker\<close>

text \<open>
  The runtime delivers install and fetch events, each under the network and the policy of
  its moment; a run threads the world through the handlers, one event after the other.
\<close>

datatype event = Install runtime | Fetch runtime request

fun step :: "event \<Rightarrow> world \<Rightarrow> world" where
  "step (Install rt) w = snd (install_event rt w)"
| "step (Fetch rt q) w = snd (fetch_handler rt q w)"

fun run :: "event list \<Rightarrow> world \<Rightarrow> world" where
  "run [] w = w"
| "run (e # es) w = run es (step e w)"

subsection \<open>The scenario of the specification\<close>

text \<open>
  Concrete runtimes and worlds on which the theorems below are exercised: a network that
  serves every asset of the manifest with status 200 and anything else with status 404, a
  network that is down, a network on which one asset of the manifest cannot be fetched, and
  worlds in which the origin holds a cache that this worker did not write: one created
  after the worker's store, one created before it that holds no request of the manifest
  (\<open>shared_world\<close>), and one left by an earlier version of the worker that holds an old
  copy of the application script (\<open>stale_world\<close>; the script has no handler that deletes
  the caches of earlier versions).
\<close>

definition ok_status :: "response \<Rightarrow> bool" where
  "ok_status r = (200 \<le> status r \<and> status r < 300)"

definition online :: runtime where
  "online =
     \<lparr>network = (\<lambda>q. if req_method q = ''GET'' \<and> req_url q \<in> set assets
                       then Inr \<lparr>status = 200, body = req_url q\<rparr>
                       else Inr \<lparr>status = 404, body = ''not found''\<rparr>),
      accepts = ok_status\<rparr>"

definition offline :: runtime where
  "offline = \<lparr>network = (\<lambda>q. Inl NetworkError), accepts = ok_status\<rparr>"

definition flaky :: runtime where
  "flaky =
     \<lparr>network = (\<lambda>q. if req_url q = ''/static/manifest.json'' then Inl NetworkError
                       else network online q),
      accepts = ok_status\<rparr>"

definition installed_world :: world where
  "installed_world = snd (install_event online fresh_world)"

definition foreign_world :: world where
  "foreign_world =
     \<lparr>caches = [(''pwa-cache-v1'', Map.empty),
                 (''thumbnails'', [asset_request ''/cover.png'' \<mapsto> \<lparr>status = 200, body = ''png''\<rparr>])],
      net_log = [], worker = Active\<rparr>"

definition shared_world :: world where
  "shared_world =
     \<lparr>caches = [(''thumbnails'', [asset_request ''/cover.png'' \<mapsto> \<lparr>status = 200, body = ''png''\<rparr>])],
      net_log = [], worker = Installing\<rparr>"

definition stale_world :: world where
  "stale_world =
     \<lparr>caches = [(''pwa-cache-v0'',
                  [asset_request ''/static/app.js'' \<mapsto> \<lparr>status = 200, body = ''stale''\<rparr>])],
      net_log = [], worker = Installing\<rparr>"

section \<open>The exercise program (Main.java)\<close>

datatype java_exception = NumberFormatException | ArrayIndexOutOfBoundsException

text \<open>
  \<open>number.split(",")\<close>: the fields between the commas, without the trailing empty fields;
  a string with no comma is the only field, also when it is empty.
\<close>

fun split_on :: "char \<Rightarrow> string \<Rightarrow> string list" where
  "split_on c [] = [[]]"
| "split_on c (x # xs) =
     (if x = c then [] # split_on c xs
      else (case split_on c xs of [] \<Rightarrow> [[x]] | f # fs \<Rightarrow> (x # f) # fs))"

definition split_comma :: "string \<Rightarrow> string list" where
  "split_comma s =
     (if CHR '','' \<notin> set s then [s]
      else rev (dropWhile (\<lambda>f. f = []) (rev (split_on (CHR '','') s))))"

text \<open>
  \<open>Integer.parseInt\<close>: an optional sign and at least one decimal digit, nothing else (no
  blanks), and a value that fits the 32-bit \<open>int\<close>; anything else is a
  \<open>NumberFormatException\<close>.
\<close>

definition digit :: "char \<Rightarrow> nat option" where
  "digit c = (let n = (of_char c :: nat) in if 48 \<le> n \<and> n \<le> 57 then Some (n - 48) else None)"

fun parse_digits :: "int \<Rightarrow> string \<Rightarrow> int option" where
  "parse_digits acc [] = Some acc"
| "parse_digits acc (c # cs) =
     (case digit c of None \<Rightarrow> None | Some d \<Rightarrow> parse_digits (10 * acc + int d) cs)"

definition parseInt :: "string \<Rightarrow> java_exception + int" where
  "parseInt s =
     (case s of
        [] \<Rightarrow> Inl NumberFormatException
      | c # cs \<Rightarrow>
          (let neg = (c = CHR ''-'');
               ds = (if c = CHR ''-'' \<or> c = CHR ''+'' then cs else s)
           in if ds = [] then Inl NumberFormatException
              else (case parse_digits 0 ds of
                      None \<Rightarrow> Inl NumberFormatException
                    | Some v \<Rightarrow>
                        (let n = (if neg then - v else v)
                         in if - (2 ^ 31) \<le> n \<and> n < 2 ^ 31 then Inr n
                            else Inl NumberFormatException))))"

text \<open>The first loop of \<open>main\<close>: \<open>numbers[i] = Integer.parseInt(parts[i])\<close>.\<close>

fun parse_all :: "string list \<Rightarrow> java_exception + int list" where
  "parse_all [] = Inr []"
| "parse_all (p # ps) =
     (case parseInt p of
        Inl e \<Rightarrow> Inl e
      | Inr n \<Rightarrow> (case parse_all ps of Inl e \<Rightarrow> Inl e | Inr ns \<Rightarrow> Inr (n # ns)))"

text \<open>
  The second loop of \<open>main\<close>, started by the program with \<open>compare = 0\<close>:
  \<open>for (int num : numbers) if (num > compare) compare = num\<close>.
\<close>

fun largest_loop :: "int \<Rightarrow> int list \<Rightarrow> int" where
  "largest_loop compare [] = compare"
| "largest_loop compare (num # nums) =
     largest_loop (if num > compare then num else compare) nums"

text \<open>The conversion \<open>%d\<close> of \<open>String.format\<close>.\<close>

fun show_nat :: "nat \<Rightarrow> string" where
  "show_nat n =
     (if n < 10 then [char_of (48 + n)]
      else show_nat (n div 10) @ [char_of (48 + n mod 10)])"

declare show_nat.simps [simp del]

definition show_int :: "int \<Rightarrow> string" where
  "show_int i = (if i < 0 then CHR ''-'' # show_nat (nat (- i)) else show_nat (nat i))"

text \<open>
  The line the program prints: \<open>numbers[0]\<close>, \<open>numbers[1]\<close> and \<open>numbers[2]\<close> are read
  for the format, which fails on fewer than three numbers, and \<open>compare\<close> is reported as
  the largest.
\<close>

definition format_prefix :: "int list \<Rightarrow> java_exception + string" where
  "format_prefix numbers =
     (case numbers of
        a # b # c # rest \<Rightarrow>
          Inr (''The largest number out of '' @ show_int a @ '', '' @ show_int b @ '' and ''
               @ show_int c @ '' is: '' @ show_int (largest_loop 0 numbers))
      | _ \<Rightarrow> Inl ArrayIndexOutOfBoundsException)"

text \<open>
  \<open>greet\<close> and \<open>main\<close>. The argument of \<open>main\<close> is the line the scanner reads; its value
  is the strings handed to \<open>System.out\<close>, in order, and the exception the program ends
  with, if any.
\<close>

definition greet :: "string list" where
  "greet = [''Hello, welcome to my program in Java!'']"

definition main :: "string \<Rightarrow> string list \<times> java_exception option" where
  "main number =
     (let out = greet @ [''Enter three numbers seperated by commas (e.g. 5,2,23): ''] in
      case parse_all (split_comma number) of
        Inl e \<Rightarrow> (out, Some e)
      | Inr numbers \<Rightarrow>
          (case format_prefix numbers of
             Inl e \<Rightarrow> (out, Some e)
           | Inr prefix \<Rightarrow> (out @ [prefix], None)))"

section \<open>Properties of the fetch handler\<close>

lemmas scenario_defs =
  installed_world_def install_event_def install_handler_def cache_addAll_def caches_open_def
  fresh_world_def asset_fetch_def online_def offline_def flaky_def ok_status_def assets_def
  asset_request_def cacheName_def cache_match_def fetch_handler_def net_fetch_def

subsection \<open>The match over the whole cache storage\<close>

lemma caches_match_None: "caches_match q cs = None \<longleftrightarrow> (\<forall>nc \<in> set cs. snd nc q = None)"
  by (induction cs) (auto split: option.splits)

lemma caches_match_Some:
  "caches_match q cs = Some r \<Longrightarrow> \<exists>n c. (n, c) \<in> set cs \<and> c q = Some r"
  by (induction cs) (fastforce split: option.splits)+

lemma caches_match_held:
  "(n, c) \<in> set cs \<Longrightarrow> c q = Some r \<Longrightarrow> \<exists>r'. caches_match q cs = Some r'"
  by (induction cs) (auto split: option.splits)

text \<open>
  The storage-wide match answers from the store of a given name whenever that store holds
  the request and no store created before it does.
\<close>

lemma caches_match_named:
  assumes "map_of cs name = Some c" and "c q = Some r"
    and "\<forall>nc \<in> set (takeWhile (\<lambda>nc. fst nc \<noteq> name) cs). snd nc q = None"
  shows "caches_match q cs = Some r"
  using assms
proof (induction cs)
  case Nil
  then show ?case by simp
next
  case (Cons nc cs)
  obtain n' c' where nc: "nc = (n', c')" by (cases nc)
  show ?case
  proof (cases "n' = name")
    case True
    with Cons.prems nc show ?thesis by simp
  next
    case False
    with Cons.prems nc have miss: "c' q = None" and rest: "map_of cs name = Some c"
      by simp_all
    from False Cons.prems(3) nc
    have "\<forall>nc \<in> set (takeWhile (\<lambda>nc. fst nc \<noteq> name) cs). snd nc q = None"
      by simp
    from Cons.IH [OF rest Cons.prems(2) this] miss nc show ?thesis by simp
  qed
qed

lemma fetch_handler_caches: "caches (snd (fetch_handler rt q w)) = caches w"
  by (simp add: fetch_handler_def net_fetch_def split: option.splits)

subsection \<open>A request that no store holds\<close>

text \<open>
  C2: for a request that no cache store holds, the fetch handler performs exactly one
  network fetch (the network log grows by that request and nothing else changes) and its
  result is the result of that fetch, unchanged.
\<close>

theorem fetch_handler_miss:
  assumes "\<forall>nc \<in> set (caches w). snd nc q = None"
  shows "fetch_handler rt q w = (network rt q, w\<lparr>net_log := net_log w @ [q]\<rparr>)"
proof -
  from assms have "caches_match q (caches w) = None"
    by (simp add: caches_match_None)
  then show ?thesis
    by (simp add: fetch_handler_def net_fetch_def)
qed

theorem fetch_handler_miss_witness:
  "caches_match (asset_request ''/not-in-manifest.png'') (caches installed_world) = None
   \<and> fetch_handler online (asset_request ''/not-in-manifest.png'') installed_world
       = (Inr \<lparr>status = 404, body = ''not found''\<rparr>,
          installed_world\<lparr>net_log := net_log installed_world
                                        @ [asset_request ''/not-in-manifest.png'']\<rparr>)"
proof -
  have absent: "caches_match (asset_request ''/not-in-manifest.png'') (caches installed_world) = None"
    by (simp add: scenario_defs)
  then have "\<forall>nc \<in> set (caches installed_world).
      snd nc (asset_request ''/not-in-manifest.png'') = None"
    by (simp add: caches_match_None)
  from fetch_handler_miss [OF this, of online] absent show ?thesis
    by (simp add: online_def asset_request_def assets_def)
qed

text \<open>
  C5: for a request that no cache store holds and whose network fetch fails, the promise
  of the fetch handler rejects with the failure of the network: the requester gets the
  failure, not a response made up by the worker.
\<close>

theorem fetch_handler_miss_failure:
  assumes "\<forall>nc \<in> set (caches w). snd nc q = None"
    and "network rt q = Inl e"
  shows "fetch_handler rt q w = (Inl e, w\<lparr>net_log := net_log w @ [q]\<rparr>)"
proof -
  from assms(1) have "caches_match q (caches w) = None"
    by (simp add: caches_match_None)
  with assms(2) show ?thesis
    by (simp add: fetch_handler_def net_fetch_def)
qed

theorem fetch_handler_miss_failure_witness:
  "caches_match (asset_request ''/not-in-manifest.png'') (caches installed_world) = None
   \<and> network offline (asset_request ''/not-in-manifest.png'') = Inl NetworkError
   \<and> fetch_handler offline (asset_request ''/not-in-manifest.png'') installed_world
       = (Inl NetworkError,
          installed_world\<lparr>net_log := net_log installed_world
                                        @ [asset_request ''/not-in-manifest.png'']\<rparr>)"
proof -
  have absent: "caches_match (asset_request ''/not-in-manifest.png'') (caches installed_world) = None"
    by (simp add: scenario_defs)
  then have a: "\<forall>nc \<in> set (caches installed_world).
      snd nc (asset_request ''/not-in-manifest.png'') = None"
    by (simp add: caches_match_None)
  have down: "network offline (asset_request ''/not-in-manifest.png'') = Inl NetworkError"
    by (simp add: offline_def)
  from fetch_handler_miss_failure [OF a down] absent down show ?thesis
    by simp
qed

subsection \<open>A request held by the named store\<close>

text \<open>
  C1, as amended: in any world in which the store named \<open>pwa-cache-v1\<close> holds the request
  (after a successful install, and after whatever events follow it), the fetch handler
  performs no network fetch: it leaves the world, network log included, as it is, and
  answers with a response that the cache storage holds for the request. The response is
  the one of the store named \<open>pwa-cache-v1\<close> provided no store created before that store
  holds the request.
\<close>

theorem cached_request_served:
  assumes "cache_match cacheName q w = Some r"
  shows "\<exists>r' n c. fetch_handler rt q w = (Inr r', w)
           \<and> (n, c) \<in> set (caches w) \<and> c q = Some r'
           \<and> ((\<forall>nc \<in> set (takeWhile (\<lambda>nc. fst nc \<noteq> cacheName) (caches w)). snd nc q = None)
                \<longrightarrow> r' = r)"
proof -
  from assms obtain c0 where named: "map_of (caches w) cacheName = Some c0"
    and held: "c0 q = Some r"
    by (auto simp: cache_match_def split: option.splits)
  from named have "(cacheName, c0) \<in> set (caches w)"
    by (rule map_of_SomeD)
  with held obtain r' where hit: "caches_match q (caches w) = Some r'"
    using caches_match_held by blast
  then obtain n c where stored: "(n, c) \<in> set (caches w)" "c q = Some r'"
    using caches_match_Some by blast
  from hit have served: "fetch_handler rt q w = (Inr r', w)"
    by (simp add: fetch_handler_def)
  have "r' = r"
    if "\<forall>nc \<in> set (takeWhile (\<lambda>nc. fst nc \<noteq> cacheName) (caches w)). snd nc q = None"
    using caches_match_named [OF named held that] hit by simp
  with served stored show ?thesis by blast
qed

theorem cached_request_served_witness:
  "fst (install_event online shared_world) = Inr ()
   \<and> map fst (caches (snd (install_event online shared_world))) = [''thumbnails'', cacheName]
   \<and> cache_match cacheName (asset_request ''/static/app.js'')
         (snd (install_event online shared_world))
       = Some \<lparr>status = 200, body = ''/static/app.js''\<rparr>
   \<and> fetch_handler offline (asset_request ''/static/app.js'')
         (snd (install_event online shared_world))
       = (Inr \<lparr>status = 200, body = ''/static/app.js''\<rparr>,
          snd (install_event online shared_world))"
proof -
  let ?w = "snd (install_event online shared_world)"
  let ?q = "asset_request ''/static/app.js''"
  have 0: "fst (install_event online shared_world) = Inr ()"
    by (simp add: scenario_defs shared_world_def)
  have 1: "map fst (caches ?w) = [''thumbnails'', cacheName]"
    by (simp add: scenario_defs shared_world_def)
  have 2: "cache_match cacheName ?q ?w = Some \<lparr>status = 200, body = ''/static/app.js''\<rparr>"
    by (simp add: scenario_defs shared_world_def)
  have 3: "\<forall>nc \<in> set (takeWhile (\<lambda>nc. fst nc \<noteq> cacheName) (caches ?w)). snd nc ?q = None"
    by (simp add: scenario_defs shared_world_def)
  from cached_request_served [OF 2, of offline] 3
  have "fetch_handler offline ?q ?w = (Inr \<lparr>status = 200, body = ''/static/app.js''\<rparr>, ?w)"
    by blast
  with 0 1 2 show ?thesis by simp
qed

text \<open>
  C1 as the specification states it fails where an earlier store shadows the named one.
  In \<open>stale_world\<close> the install succeeds and the store named \<open>pwa-cache-v1\<close> holds the
  response fetched for the application script, but the fetch handler answers the request
  with the old copy held by the store \<open>pwa-cache-v0\<close>, which was created first.
\<close>

theorem cached_request_shadowed:
  "fst (install_event online stale_world) = Inr ()
   \<and> cache_match cacheName (asset_request ''/static/app.js'')
         (snd (install_event online stale_world))
       = Some \<lparr>status = 200, body = ''/static/app.js''\<rparr>
   \<and> fetch_handler online (asset_request ''/static/app.js'')
         (snd (install_event online stale_world))
       = (Inr \<lparr>status = 200, body = ''stale''\<rparr>, snd (install_event online stale_world))
   \<and> fst (fetch_handler online (asset_request ''/static/app.js'')
         (snd (install_event online stale_world)))
       \<noteq> Inr \<lparr>status = 200, body = ''/static/app.js''\<rparr>"
  by (simp add: scenario_defs stale_world_def)

subsection \<open>A request held by a store of another name\<close>

text \<open>
  C9: the lookup of the fetch handler is over the whole cache storage, not over the store
  named \<open>pwa-cache-v1\<close> only. When a store of any other name holds the request, the
  handler answers with a response stored for that request in the storage and leaves the
  world as it is: no network fetch is performed.
\<close>

theorem fetch_handler_any_store:
  assumes "(n, c) \<in> set (caches w)" and "n \<noteq> cacheName" and "c q = Some r"
  shows "\<exists>r' n' c'. fetch_handler rt q w = (Inr r', w)
           \<and> (n', c') \<in> set (caches w) \<and> c' q = Some r'"
proof -
  from assms(1,3) obtain r' where hit: "caches_match q (caches w) = Some r'"
    using caches_match_held by blast
  then obtain n' c' where "(n', c') \<in> set (caches w)" and "c' q = Some r'"
    using caches_match_Some by blast
  moreover from hit have "fetch_handler rt q w = (Inr r', w)"
    by (simp add: fetch_handler_def)
  ultimately show ?thesis by blast
qed

theorem fetch_handler_any_store_witness:
  "cache_match cacheName (asset_request ''/cover.png'') foreign_world = None
   \<and> fetch_handler offline (asset_request ''/cover.png'') foreign_world
       = (Inr \<lparr>status = 200, body = ''png''\<rparr>, foreign_world)"
proof -
  let ?q = "asset_request ''/cover.png''"
  let ?c = "[?q \<mapsto> \<lparr>status = 200, body = ''png''\<rparr>]"
  have 1: "(''thumbnails'', ?c) \<in> set (caches foreign_world)"
    by (simp add: foreign_world_def)
  have 2: "''thumbnails'' \<noteq> cacheName"
    by (simp add: cacheName_def)
  have 3: "?c ?q = Some \<lparr>status = 200, body = ''png''\<rparr>"
    by simp
  from fetch_handler_any_store [OF 1 2 3, of offline]
  obtain r' n' c' where res: "fetch_handler offline ?q foreign_world = (Inr r', foreign_world)"
    and "(n', c') \<in> set (caches foreign_world)" and "c' ?q = Some r'"
    by blast
  then have "r' = \<lparr>status = 200, body = ''png''\<rparr>"
    by (auto simp: foreign_world_def split: if_splits)
  with res show ?thesis
    by (simp add: cache_match_def foreign_world_def cacheName_def)
qed

section \<open>Properties of the install handler\<close>

subsection \<open>Fetching and storing the manifest\<close>

lemma collect_Inr:
  "collect (map (\<lambda>q. (q, f q)) qs) = Inr es \<Longrightarrow>
     map fst es = qs \<and> (\<forall>qr \<in> set es. f (fst qr) = Inr (snd qr))"
proof (induction qs arbitrary: es)
  case Nil
  then show ?case by simp
next
  case (Cons q qs)
  show ?case
  proof (cases "f q")
    case (Inl e)
    with Cons.prems show ?thesis by simp
  next
    case (Inr r)
    with Cons.prems obtain es' where tl: "collect (map (\<lambda>q. (q, f q)) qs) = Inr es'"
      and es: "es = (q, r) # es'"
      by (auto split: sum.splits)
    from Cons.IH [OF tl] es Inr show ?thesis by simp
  qed
qed

lemma collect_Inl:
  "q \<in> set qs \<Longrightarrow> f q = Inl e \<Longrightarrow> \<exists>e'. collect (map (\<lambda>q. (q, f q)) qs) = Inl e'"
proof (induction qs)
  case Nil
  then show ?case by simp
next
  case (Cons a qs)
  then show ?case
    by (cases "f a") (auto split: sum.splits)
qed

lemma put_entries_map_add: "put_entries es c = c ++ map_of (rev es)"
proof (induction es arbitrary: c)
  case Nil
  then show ?case by simp
next
  case (Cons qr es)
  obtain q r where qr: "qr = (q, r)" by (cases qr)
  have "put_entries (qr # es) c = c(q \<mapsto> r) ++ map_of (rev es)"
    unfolding qr by (simp only: put_entries.simps Cons.IH)
  also have "\<dots> = c ++ ([q \<mapsto> r] ++ map_of (rev es))"
    by (simp add: map_add_assoc [symmetric])
  also have "[q \<mapsto> r] ++ map_of (rev es) = map_of (rev (qr # es))"
    by (simp add: qr map_of_append)
  finally show ?case .
qed

lemma put_entries_twice: "put_entries es (put_entries es c) = put_entries es c"
  by (rule ext) (simp add: put_entries_map_add map_add_def split: option.splits)

lemma dom_put_entries: "dom (put_entries es c) = dom c \<union> fst ` set es"
  by (auto simp: put_entries_map_add dom_map_of_conv_image_fst)

lemma put_entries_fetched:
  assumes "\<forall>qr \<in> set es. f (fst qr) = Inr (snd qr)" and "q \<in> fst ` set es"
  shows "\<exists>r. put_entries es c q = Some r \<and> f q = Inr r"
proof -
  from assms(2) have "q \<in> fst ` set (rev es)" by simp
  then obtain r where r: "map_of (rev es) q = Some r"
    by (metis domD dom_map_of_conv_image_fst)
  then have "(q, r) \<in> set es"
    using map_of_SomeD by fastforce
  with assms(1) have "f q = Inr r" by fastforce
  with r show ?thesis
    by (simp add: put_entries_map_add map_add_Some_iff)
qed

lemma asset_fetch_Inr: "asset_fetch rt q = Inr r \<Longrightarrow> network rt q = Inr r \<and> accepts rt r"
  by (auto simp: asset_fetch_def split: sum.splits if_splits)

lemma map_of_put_in:
  "map_of (put_in name es cs) name = map_option (put_entries es) (map_of cs name)"
  by (induction cs) auto

lemma put_in_twice: "put_in name es (put_in name es cs) = put_in name es cs"
  by (induction cs) (auto simp: put_entries_twice)

lemma caches_open_present: "\<exists>c. map_of (caches (caches_open name w)) name = Some c"
  by (cases "map_of (caches w) name") (simp_all add: caches_open_def map_add_def)

lemma caches_open_again:
  "map_of (caches w) name = Some c \<Longrightarrow> caches_open name w = w"
  by (simp add: caches_open_def)

text \<open>What an install event does, by the outcome of the fetches of the manifest.\<close>

lemma install_handler_rejected:
  assumes "collect (map (\<lambda>q. (q, asset_fetch rt q)) (map asset_request assets)) = Inl e"
  shows "install_handler rt w =
    (Inl e, (caches_open cacheName w)
       \<lparr>net_log := net_log (caches_open cacheName w) @ map asset_request assets\<rparr>)"
  using assms by (simp add: install_handler_def cache_addAll_def)

lemma install_event_rejected:
  assumes "collect (map (\<lambda>q. (q, asset_fetch rt q)) (map asset_request assets)) = Inl e"
  shows "install_event rt w =
    (Inl e, (caches_open cacheName w)
       \<lparr>net_log := net_log (caches_open cacheName w) @ map asset_request assets,
        worker := Redundant\<rparr>)"
  using assms by (simp add: install_event_def install_handler_def cache_addAll_def)

lemma install_event_fulfilled:
  assumes "collect (map (\<lambda>q. (q, asset_fetch rt q)) (map asset_request assets)) = Inr es"
  shows "install_event rt w =
    (Inr (), (caches_open cacheName w)
       \<lparr>net_log := net_log (caches_open cacheName w) @ map asset_request assets,
        caches := put_in cacheName es (caches (caches_open cacheName w)),
        worker := Active\<rparr>)"
  using assms by (simp add: install_event_def install_handler_def cache_addAll_def)

subsection \<open>An asset that cannot be fetched\<close>

text \<open>
  C3: if the fetch of one asset of the manifest fails during the install (the network fails,
  or the policy refuses the response), the promise that the install handler hands to the
  runtime rejects, and the worker does not become active: it is discarded.
\<close>

theorem install_fails_as_a_whole:
  assumes "p \<in> set assets" and "asset_fetch rt (asset_request p) = Inl e"
  shows "\<exists>e'. fst (install_handler rt w) = Inl e'
           \<and> fst (install_event rt w) = Inl e'
           \<and> worker (snd (install_event rt w)) = Redundant"
proof -
  from assms(1) have "asset_request p \<in> set (map asset_request assets)" by simp
  from collect_Inl [where f = "asset_fetch rt", OF this assms(2)]
  obtain e' where "collect (map (\<lambda>q. (q, asset_fetch rt q)) (map asset_request assets)) = Inl e'"
    by blast
  from install_event_rejected [OF this] install_handler_rejected [OF this]
  show ?thesis by simp
qed

theorem install_fails_as_a_whole_witness:
  "''/static/manifest.json'' \<in> set assets
   \<and> asset_fetch flaky (asset_request ''/static/manifest.json'') = Inl NetworkError
   \<and> fst (install_handler flaky fresh_world) = Inl NetworkError
   \<and> fst (install_event flaky fresh_world) = Inl NetworkError
   \<and> worker (snd (install_event flaky fresh_world)) = Redundant"
proof -
  have 1: "''/static/manifest.json'' \<in> set assets"
    by (simp add: assets_def)
  have 2: "asset_fetch flaky (asset_request ''/static/manifest.json'') = Inl NetworkError"
    by (simp add: asset_fetch_def flaky_def asset_request_def)
  have 3: "fst (install_event flaky fresh_world) = Inl NetworkError"
    by (simp add: scenario_defs)
  from install_fails_as_a_whole [OF 1 2, of fresh_world] 1 2 3 show ?thesis
    by auto
qed

subsection \<open>A successful install\<close>

text \<open>
  C4: after a successful install, for every path of the manifest, the lookup of its request
  in the store named \<open>pwa-cache-v1\<close> returns the response that the network gave for that
  request during the install.
\<close>

theorem install_stores_fetched:
  assumes "install_event rt w = (Inr u, w')" and "p \<in> set assets"
  shows "\<exists>r. network rt (asset_request p) = Inr r
           \<and> cache_match cacheName (asset_request p) w' = Some r"
proof (cases "collect (map (\<lambda>q. (q, asset_fetch rt q)) (map asset_request assets))")
  case (Inl e)
  from install_event_rejected [OF this] assms(1) show ?thesis by simp
next
  case (Inr es)
  from install_event_fulfilled [OF this] assms(1)
  have w': "caches w' = put_in cacheName es (caches (caches_open cacheName w))"
    by auto
  obtain c where c: "map_of (caches (caches_open cacheName w)) cacheName = Some c"
    using caches_open_present by blast
  from collect_Inr [OF Inr]
  have keys: "map fst es = map asset_request assets"
    and vals: "\<forall>qr \<in> set es. asset_fetch rt (fst qr) = Inr (snd qr)"
    by simp_all
  from keys assms(2) have "asset_request p \<in> fst ` set es"
    by (metis image_eqI list.set_map)
  from put_entries_fetched [OF vals this]
  obtain r where "put_entries es c (asset_request p) = Some r"
    and "asset_fetch rt (asset_request p) = Inr r"
    by blast
  then show ?thesis
    using asset_fetch_Inr by (simp add: cache_match_def w' map_of_put_in c)
qed

theorem install_stores_fetched_witness:
  "install_event online fresh_world = (Inr (), installed_world)
   \<and> ''/'' \<in> set assets
   \<and> network online (asset_request ''/'') = Inr \<lparr>status = 200, body = ''/''\<rparr>
   \<and> cache_match cacheName (asset_request ''/'') installed_world
       = Some \<lparr>status = 200, body = ''/''\<rparr>"
proof -
  have "fst (install_event online fresh_world) = Inr ()"
    by (simp add: scenario_defs)
  then have 1: "install_event online fresh_world = (Inr (), installed_world)"
    by (simp add: installed_world_def prod_eq_iff)
  have 2: "''/'' \<in> set assets"
    by (simp add: assets_def)
  have 3: "network online (asset_request ''/'') = Inr \<lparr>status = 200, body = ''/''\<rparr>"
    by (simp add: online_def asset_request_def assets_def)
  from install_stores_fetched [OF 1 2] 1 2 3 show ?thesis
    by simp
qed

subsection \<open>Installing twice\<close>

lemma install_event_twice:
  "caches (snd (install_event rt (snd (install_event rt w)))) = caches (snd (install_event rt w))"
proof -
  obtain c where c: "map_of (caches (caches_open cacheName w)) cacheName = Some c"
    using caches_open_present by blast
  show ?thesis
  proof (cases "collect (map (\<lambda>q. (q, asset_fetch rt q)) (map asset_request assets))")
    case (Inl e)
    note first = install_event_rejected [OF Inl, of w]
    have "caches_open cacheName (snd (install_event rt w)) = snd (install_event rt w)"
      by (rule caches_open_again [where c = c]) (simp add: first c)
    then show ?thesis
      by (simp add: install_event_rejected [OF Inl])
  next
    case (Inr es)
    note first = install_event_fulfilled [OF Inr, of w]
    have "caches_open cacheName (snd (install_event rt w)) = snd (install_event rt w)"
      by (rule caches_open_again [where c = "put_entries es c"])
        (simp add: first map_of_put_in c)
    then show ?thesis
      by (simp add: install_event_fulfilled [OF Inr] put_in_twice)
  qed
qed

text \<open>
  C6: with the manifest unchanged and the network answering alike, a second install after
  a first one on a fresh world leaves the cache storage exactly as the first install left
  it.
\<close>

theorem install_idempotent:
  "caches (snd (install_event rt (snd (install_event rt fresh_world))))
     = caches (snd (install_event rt fresh_world))"
  by (rule install_event_twice)

theorem install_idempotent_witness:
  "caches (snd (install_event online installed_world)) = caches installed_world"
  using install_idempotent [of online] by (simp add: installed_world_def)

section \<open>Properties of the runs of the worker\<close>

text \<open>
  The cache storage of a world the worker alone has written: no store, or the named store
  only, holding requests of the manifest only.
\<close>

lemma install_event_shape:
  assumes "caches w = [] \<or> (\<exists>c. caches w = [(cacheName, c)] \<and> dom c \<subseteq> asset_request ` set assets)"
  shows "\<exists>c. caches (snd (install_event rt w)) = [(cacheName, c)]
           \<and> dom c \<subseteq> asset_request ` set assets"
proof -
  from assms obtain c0 where opened: "caches (caches_open cacheName w) = [(cacheName, c0)]"
    and c0: "dom c0 \<subseteq> asset_request ` set assets"
    by (auto simp: caches_open_def)
  show ?thesis
  proof (cases "collect (map (\<lambda>q. (q, asset_fetch rt q)) (map asset_request assets))")
    case (Inl e)
    with opened c0 show ?thesis
      by (simp add: install_event_rejected)
  next
    case (Inr es)
    from collect_Inr [OF Inr] have "fst ` set es = asset_request ` set assets"
      by (metis list.set_map)
    with c0 have "dom (put_entries es c0) \<subseteq> asset_request ` set assets"
      by (simp add: dom_put_entries)
    with opened show ?thesis
      by (simp add: install_event_fulfilled [OF Inr])
  qed
qed

lemma step_shape:
  assumes "caches w = [] \<or> (\<exists>c. caches w = [(cacheName, c)] \<and> dom c \<subseteq> asset_request ` set assets)"
  shows "caches (step e w) = []
     \<or> (\<exists>c. caches (step e w) = [(cacheName, c)] \<and> dom c \<subseteq> asset_request ` set assets)"
proof (cases e)
  case (Install rt)
  with install_event_shape [OF assms, of rt] show ?thesis by simp
next
  case (Fetch rt q)
  with assms show ?thesis by (simp add: fetch_handler_caches)
qed

lemma run_shape:
  assumes "caches w = [] \<or> (\<exists>c. caches w = [(cacheName, c)] \<and> dom c \<subseteq> asset_request ` set assets)"
  shows "caches (run evs w) = []
     \<or> (\<exists>c. caches (run evs w) = [(cacheName, c)] \<and> dom c \<subseteq> asset_request ` set assets)"
  using assms
proof (induction evs arbitrary: w)
  case Nil
  then show ?case by simp
next
  case (Cons e evs)
  from Cons.IH [OF step_shape [OF Cons.prems]] show ?case by simp
qed

lemma reachable_shape:
  "caches (run evs fresh_world) = []
     \<or> (\<exists>c. caches (run evs fresh_world) = [(cacheName, c)]
            \<and> dom c \<subseteq> asset_request ` set assets)"
  by (rule run_shape) (simp add: fresh_world_def)

text \<open>
  C7: from the fresh world, after any sequence of install and fetch events (each with a
  network and a policy of its own), every store of the cache storage is the store named
  \<open>pwa-cache-v1\<close> and each of its keys is the request of a path of the manifest; and the
  fetch handler, run in any world, leaves the cache storage as it found it.
\<close>

theorem store_within_manifest:
  "(\<forall>nc \<in> set (caches (run evs fresh_world)).
       fst nc = cacheName \<and> dom (snd nc) \<subseteq> asset_request ` set assets)
   \<and> caches (snd (fetch_handler rt q w)) = caches w"
  using reachable_shape [of evs] by (auto simp: fetch_handler_caches)

theorem store_within_manifest_witness:
  "map fst (caches (run [Install online, Fetch offline (asset_request ''/cover.png''),
                        Install flaky] fresh_world)) = [cacheName]
   \<and> dom (snd (hd (caches (run [Install online, Fetch offline (asset_request ''/cover.png''),
                        Install flaky] fresh_world)))) \<subseteq> asset_request ` set assets
   \<and> caches (snd (fetch_handler offline (asset_request ''/cover.png'') installed_world))
       = caches installed_world"
proof -
  let ?w = "run [Install online, Fetch offline (asset_request ''/cover.png''), Install flaky]
              fresh_world"
  have "\<exists>c. caches ?w = [(cacheName, c)]"
    by (simp add: scenario_defs)
  then obtain c where c: "caches ?w = [(cacheName, c)]" ..
  from store_within_manifest [of "[Install online, Fetch offline (asset_request ''/cover.png''),
      Install flaky]" offline "asset_request ''/cover.png''" installed_world] c
  show ?thesis by simp
qed

section \<open>The exercise program\<close>

text \<open>
  What the comparison loop computes: the maximum of the numbers and of the value the
  comparison starts from.
\<close>

lemma largest_loop_fold: "largest_loop compare nums = fold max nums compare"
  by (induction nums arbitrary: compare) (simp_all add: max_def not_less)

lemma largest_loop_Max: "largest_loop compare nums = Max (insert compare (set nums))"
proof -
  have "Max (set (compare # nums)) = fold max nums compare"
    by (rule Max.set_eq_fold)
  then show ?thesis
    by (simp add: largest_loop_fold)
qed

text \<open>
  C8: the program is meant to report the largest of the three numbers. On the input line
  \<open>-1,-2,-3\<close> it parses the three integers and reports 0, which is none of them and is not
  their maximum, -1: the comparison starts from \<open>compare = 0\<close> instead of a number of the
  input.
\<close>

theorem main_all_negative:
  "main ''-1,-2,-3''
     = ([''Hello, welcome to my program in Java!'',
         ''Enter three numbers seperated by commas (e.g. 5,2,23): '',
         ''The largest number out of -1, -2 and -3 is: 0''], None)
   \<and> parse_all (split_comma ''-1,-2,-3'') = Inr [-1, -2, -3]
   \<and> largest_loop 0 [-1, -2, -3] = 0
   \<and> Max {-1, -2, -3 :: int} = -1"
  by code_simp

end
